theory Spec2Isabelle
  imports Main "HOL-Library.Sublist"
begin

section \<open>Strings as Python uses them\<close>

text \<open>
  Python strings are modelled as \<^typ>\<open>string\<close>. \<open>str.replace(old, new)\<close> scans from the
  left and replaces every non-overlapping occurrence of \<open>old\<close>; with an empty \<open>old\<close> it
  puts \<open>new\<close> before every character and at the end.
\<close>

fun replace :: "string \<Rightarrow> string \<Rightarrow> string \<Rightarrow> string" where
  "replace [] new s = new @ concat (map (\<lambda>c. c # new) s)"
| "replace (a # as) new [] = []"
| "replace (a # as) new (c # cs) =
     (if prefix (a # as) (c # cs)
      then new @ replace (a # as) new (drop (length as) cs)
      else c # replace (a # as) new cs)"

text \<open>\<open>sub in s\<close>: some suffix of \<open>s\<close> starts with \<open>sub\<close>.\<close>

fun contains :: "string \<Rightarrow> string \<Rightarrow> bool" where
  "contains sub [] = (sub = [])"
| "contains sub (c # cs) = (prefix sub (c # cs) \<or> contains sub cs)"

text \<open>
  \<open>str.strip()\<close> removes leading and trailing whitespace. The whitespace characters of the
  ASCII range are tab, line feed, vertical tab, form feed, carriage return, the four
  separators \<open>0x1C\<close> to \<open>0x1F\<close> and the space.
\<close>

definition is_space :: "char \<Rightarrow> bool" where
  "is_space c = (c \<in> set [CHR 0x09, CHR 0x0A, CHR 0x0B, CHR 0x0C, CHR 0x0D,
                           CHR 0x1C, CHR 0x1D, CHR 0x1E, CHR 0x1F, CHR '' ''])"

definition strip :: "string \<Rightarrow> string" where
  "strip s = rev (dropWhile is_space (rev (dropWhile is_space s)))"

text \<open>\<open>sep.join(parts)\<close>.\<close>

fun join :: "string \<Rightarrow> string list \<Rightarrow> string" where
  "join sep [] = []"
| "join sep [p] = p"
| "join sep (p # q # ps) = p @ sep @ join sep (q # ps)"

section \<open>Raw feed entries and paper records\<close>

text \<open>
  A raw entry is the dictionary the feed parser delivers. Every key the program reads is
  optional (\<open>e.get(key)\<close> gives \<open>None\<close> when it is absent); where a key is present its value
  has the type the feed parser gives it: a string, or a list of dictionaries whose keys
  are optional strings in turn. A key that is present with the value \<open>None\<close> is not
  distinguished from an absent key.
\<close>

record link =
  link_type :: "string option"
  link_href :: "string option"

record author =
  author_name :: "string option"

record tag =
  tag_term :: "string option"

record entry =
  raw_id :: "string option"
  raw_title :: "string option"
  raw_summary :: "string option"
  raw_authors :: "author list option"
  raw_published :: "string option"
  raw_updated :: "string option"
  raw_links :: "link list option"
  raw_tags :: "tag list option"

text \<open>
  The record dictionary \<open>fetch_entry\<close> returns, with the source's keys. \<open>published\<close>,
  \<open>updated\<close>, \<open>abs_url\<close> and \<open>pdf_url\<close> hold whatever \<open>get\<close> returned, so they can be
  \<open>None\<close>.
\<close>

record paper =
  arxiv_id :: string
  title :: string
  summary :: string
  authors :: "string list"
  published :: "string option"
  updated :: "string option"
  abs_url :: "string option"
  pdf_url :: "string option"
  categories :: "string list"
  fetched_at_utc :: string

section \<open>Record Normalizer\<close>

text \<open>
  \<open>re.search(r"/abs/([^/]+)$", entry_id)\<close>: the group is a non-empty run without a slash
  that reaches the end of the string, so it is all that follows the last slash, and the
  five characters ending at that slash must be \<open>/abs/\<close>.
\<close>

definition normalize_arxiv_id :: "string \<Rightarrow> string" where
  "normalize_arxiv_id entry_id =
     (let tail = rev (takeWhile (\<lambda>c. c \<noteq> CHR ''/'') (rev entry_id));
          head = take (length entry_id - length tail) entry_id
      in if tail \<noteq> [] \<and> suffix ''/abs/'' head then tail else entry_id)"

text \<open>Truthiness of an optional string: \<open>None\<close> and the empty string are false.\<close>

definition truthy :: "string option \<Rightarrow> bool" where
  "truthy v = (case v of None \<Rightarrow> False | Some s \<Rightarrow> s \<noteq> [])"

definition extract_pdf_url :: "entry \<Rightarrow> string option" where
  "extract_pdf_url e =
     (case find (\<lambda>l. link_type l = Some ''application/pdf'')
                (case raw_links e of None \<Rightarrow> [] | Some ls \<Rightarrow> ls) of
        Some l \<Rightarrow> link_href l
      | None \<Rightarrow>
          (if truthy (raw_id e)
           then (let abs_url = replace ''https://'' ''http://'' (the (raw_id e))
                 in if contains ''/abs/'' abs_url
                    then Some (replace ''/abs/'' ''/pdf/'' abs_url @ ''.pdf'')
                    else None)
           else None))"

text \<open>
  \<open>fetch_entry\<close> reads the clock for \<open>fetched_at_utc\<close>; the text of
  \<open>datetime.utcnow().isoformat()\<close> is the argument \<open>now\<close>.
\<close>

definition fetch_entry :: "string \<Rightarrow> entry \<Rightarrow> paper" where
  "fetch_entry now e =
     \<lparr> arxiv_id = normalize_arxiv_id (case raw_id e of None \<Rightarrow> [] | Some i \<Rightarrow> i),
       title = strip (replace [CHR 0x0A] '' ''
                 (case raw_title e of None \<Rightarrow> [] | Some t \<Rightarrow> t)),
       summary = strip (replace [CHR 0x0A] '' ''
                 (case raw_summary e of None \<Rightarrow> [] | Some t \<Rightarrow> t)),
       authors = map (\<lambda>a. the (author_name a))
                   (filter (\<lambda>a. truthy (author_name a))
                      (case raw_authors e of None \<Rightarrow> [] | Some as \<Rightarrow> as)),
       published = raw_published e,
       updated = raw_updated e,
       abs_url = raw_id e,
       pdf_url = extract_pdf_url e,
       categories = map (\<lambda>t. the (tag_term t))
                      (filter (\<lambda>t. truthy (tag_term t))
                         (case raw_tags e of None \<Rightarrow> [] | Some ts \<Rightarrow> ts)),
       fetched_at_utc = now @ ''Z'' \<rparr>"

section \<open>Errors, the environment and the world\<close>

text \<open>
  Every exception the program can raise is a value: a missing dictionary key, the
  \<open>ValueError\<close> of configuration validation, a transport error of the HTTP library
  (connection failure, timeout), the error \<open>raise_for_status\<close> raises on a non-success
  status, and an error of the operating system.
\<close>

datatype error =
    KeyError string
  | ValueError string
  | RequestError string
  | HTTPError string
  | OSError string

text \<open>
  What the program does to the outside is logged, in order: one \<open>Search\<close> for every call
  of the Page Fetcher (endpoint, query, \<open>start\<close>, \<open>max_results\<close> and what came back: the
  error raised or the number of entries), one \<open>Get\<close> for every HTTP request of the
  downloader (URL and the destination it is for), one \<open>Append\<close> for every time the
  metadata file is opened for appending (path and number of lines written), \<open>Sleep\<close> for
  every courtesy pause, and the messages printed.
\<close>

datatype event =
    Search string string int int "error + nat"
  | Get string string
  | Append string nat
  | Sleep
  | Print_query string
  | Print_no_more
  | Print_fetched int
  | Print_saved nat string
  | Print_downloaded string
  | Print_failed string error

text \<open>
  The world is the state of the remote services (\<open>net\<close>), the local file system (regular
  files with their contents, and directories) and the log.
\<close>

record 'n world =
  net :: 'n
  files :: "string \<rightharpoonup> string"
  dirs :: "string set"
  trace :: "event list"

text \<open>
  The parsed feed, as far as the program reads it: the value of its \<open>entries\<close> key.
\<close>

type_synonym feed = "entry list option"

text \<open>
  An artifact transfer, as the HTTP library delivers it: \<open>requests.get\<close> raises, or
  \<open>raise_for_status\<close> raises, or the body arrives as chunks, after which the stream
  ends or \<open>iter_content\<close> raises.
\<close>

datatype transfer =
    Connect_fails error
  | Status_fails error
  | Body "string list" "error option"

text \<open>
  The collaborators the program calls: the search service, artifact transfers, the clock
  and the JSON serialiser. The first two answer from the state of the remote side and
  may change it.
\<close>

record 'n env =
  search :: "'n \<Rightarrow> string \<Rightarrow> string \<Rightarrow> int \<Rightarrow> int \<Rightarrow> (error + feed) \<times> 'n"
  transfer :: "'n \<Rightarrow> string \<Rightarrow> transfer \<times> 'n"
  utcnow :: "'n \<Rightarrow> string"
  dumps :: "paper \<Rightarrow> string"

definition emit :: "event \<Rightarrow> 'n world \<Rightarrow> 'n world" where
  "emit ev w = w\<lparr>trace := trace w @ [ev]\<rparr>"

section \<open>File system calls\<close>

text \<open>\<open>os.path.dirname\<close> and the two-argument \<open>os.path.join\<close> of \<open>posixpath\<close>.\<close>

definition dirname :: "string \<Rightarrow> string" where
  "dirname p =
     (let head = rev (dropWhile (\<lambda>c. c \<noteq> CHR ''/'') (rev p))
      in if head \<noteq> [] \<and> filter (\<lambda>c. c \<noteq> CHR ''/'') head \<noteq> []
         then rev (dropWhile (\<lambda>c. c = CHR ''/'') (rev head))
         else head)"

definition path_join :: "string \<Rightarrow> string \<Rightarrow> string" where
  "path_join a b =
     (if prefix ''/'' b then b
      else if a = [] \<or> suffix ''/'' a then a @ b
      else a @ ''/'' @ b)"

definition path_exists :: "'n world \<Rightarrow> string \<Rightarrow> bool" where
  "path_exists w p = (files w p \<noteq> None \<or> p \<in> dirs w)"

lemma dirname_length: "length (dirname p) \<le> length p"
proof -
  have a: "length (dropWhile P xs) \<le> length xs" for P and xs :: string
    by (induction xs) auto
  have "length (rev (dropWhile (\<lambda>c. c = CHR ''/'')
          (rev (rev (dropWhile (\<lambda>c. c \<noteq> CHR ''/'') (rev p))))))
        \<le> length (dropWhile (\<lambda>c. c \<noteq> CHR ''/'') (rev p))"
    using a [of "\<lambda>c. c = CHR ''/''" "dropWhile (\<lambda>c. c \<noteq> CHR ''/'') (rev p)"] by simp
  moreover have "length (dropWhile (\<lambda>c. c \<noteq> CHR ''/'') (rev p)) \<le> length p"
    using a [of "\<lambda>c. c \<noteq> CHR ''/''" "rev p"] by simp
  ultimately show ?thesis
    by (simp add: dirname_def Let_def)
qed

text \<open>The directories above a path, nearest first.\<close>

function parent_dirs :: "string \<Rightarrow> string list" where
  "parent_dirs p =
     (let d = dirname p
      in if d = [] \<or> length p \<le> length d then [] else d # parent_dirs d)"
  by pat_completeness auto
termination
  by (relation "measure length") auto

declare parent_dirs.simps [simp del]

text \<open>
  \<open>os.makedirs(name, exist_ok=True)\<close> creates the directory and the missing directories
  above it. It raises for the empty path and where one of these paths is a regular file.
\<close>

definition makedirs :: "string \<Rightarrow> 'n world \<Rightarrow> error + 'n world" where
  "makedirs name w =
     (if name = [] then Inl (OSError ''FileNotFoundError'')
      else if list_ex (\<lambda>d. files w d \<noteq> None) (name # parent_dirs name)
      then Inl (OSError ''FileExistsError'')
      else Inr (w\<lparr>dirs := dirs w \<union> set (name # parent_dirs name)\<rparr>))"

text \<open>
  Opening a file for writing raises for the empty path, a path that ends with a slash
  and a directory. Otherwise \<open>open(path, "a")\<close> creates the file if it is absent and
  keeps what it holds, and \<open>open(path, "wb")\<close> creates or empties it.
\<close>

definition can_open :: "'n world \<Rightarrow> string \<Rightarrow> bool" where
  "can_open w path = (path \<noteq> [] \<and> \<not> suffix ''/'' path \<and> path \<notin> dirs w)"

definition open_a :: "string \<Rightarrow> 'n world \<Rightarrow> error + 'n world" where
  "open_a path w =
     (if can_open w path
      then Inr (w\<lparr>files := (files w)(path \<mapsto>
                  (case files w path of None \<Rightarrow> [] | Some old \<Rightarrow> old))\<rparr>)
      else Inl (OSError ''IsADirectoryError''))"

definition open_wb :: "string \<Rightarrow> 'n world \<Rightarrow> error + 'n world" where
  "open_wb path w =
     (if can_open w path
      then Inr (w\<lparr>files := (files w)(path \<mapsto> [])\<rparr>)
      else Inl (OSError ''IsADirectoryError''))"

text \<open>\<open>f.write(data)\<close> on a file that is open at \<open>path\<close>.\<close>

definition write_file :: "string \<Rightarrow> string \<Rightarrow> 'n world \<Rightarrow> 'n world" where
  "write_file path data w =
     w\<lparr>files := (files w)(path \<mapsto>
          (case files w path of None \<Rightarrow> [] | Some old \<Rightarrow> old) @ data)\<rparr>"

section \<open>Metadata Sink\<close>

definition save_jsonl :: "'n env \<Rightarrow> string \<Rightarrow> paper list \<Rightarrow> 'n world \<Rightarrow> (error + unit) \<times> 'n world" where
  "save_jsonl env path records w =
     (let dir_path = dirname path
      in case (if dir_path \<noteq> [] then makedirs dir_path w else Inr w) of
           Inl err \<Rightarrow> (Inl err, w)
         | Inr w1 \<Rightarrow>
             (case open_a path w1 of
                Inl err \<Rightarrow> (Inl err, w1)
              | Inr w2 \<Rightarrow>
                  (Inr (),
                   emit (Append path (length records))
                     (foldl (\<lambda>v rec. write_file path (dumps env rec @ [CHR 0x0A]) v)
                        w2 records))))"

section \<open>Configuration\<close>

text \<open>
  The configuration dictionary, as \<open>yaml.safe_load\<close> returns it. Each key the program
  reads is a field, \<open>None\<close> when the key is absent, with the type the program expects
  of its value. The keys \<open>arxiv_api\<close> and \<open>ArXiv_api\<close> differ in case and are two keys.
\<close>

record config =
  cfg_out_jsonl :: "string option"
  cfg_download_pdfs :: "bool option"
  cfg_pdf_dir :: "string option"
  cfg_batch_size :: "int option"
  cfg_total_to_fetch :: "int option"
  cfg_keywords :: "string list option"
  cfg_ArXiv_categories :: "string list option"
  cfg_arxiv_api :: "string option"
  cfg_ArXiv_api :: "string option"

definition DEFAULT_ARXIV_API :: string where
  "DEFAULT_ARXIV_API = ''https://export.arxiv.org/api/query''"

text \<open>\<open>field in config\<close>, for the keys of the record.\<close>

definition has_key :: "config \<Rightarrow> string \<Rightarrow> bool" where
  "has_key c k =
     (if k = ''out_jsonl'' then cfg_out_jsonl c \<noteq> None
      else if k = ''download_pdfs'' then cfg_download_pdfs c \<noteq> None
      else if k = ''pdf_dir'' then cfg_pdf_dir c \<noteq> None
      else if k = ''batch_size'' then cfg_batch_size c \<noteq> None
      else if k = ''total_to_fetch'' then cfg_total_to_fetch c \<noteq> None
      else if k = ''keywords'' then cfg_keywords c \<noteq> None
      else if k = ''ArXiv_categories'' then cfg_ArXiv_categories c \<noteq> None
      else if k = ''arxiv_api'' then cfg_arxiv_api c \<noteq> None
      else if k = ''ArXiv_api'' then cfg_ArXiv_api c \<noteq> None
      else False)"

definition required_fields :: "string list" where
  "required_fields = [''out_jsonl'', ''download_pdfs'', ''pdf_dir'', ''batch_size'',
                      ''total_to_fetch'', ''keywords'', ''ArXiv_categories'']"

text \<open>
  \<open>load_config\<close> after the file has been read and parsed: \<open>parsed\<close> is the dictionary
  \<open>yaml.safe_load\<close> returned. The default endpoint is stored under the key \<open>ArXiv_api\<close>
  when the key \<open>arxiv_api\<close> is absent.
\<close>

definition load_config :: "string \<Rightarrow> config \<Rightarrow> error + config" where
  "load_config config_file parsed =
     (let config = (if \<not> has_key parsed ''arxiv_api''
                    then parsed\<lparr>cfg_ArXiv_api := Some DEFAULT_ARXIV_API\<rparr>
                    else parsed)
      in case find (\<lambda>field. \<not> has_key config field) required_fields of
           Some field \<Rightarrow>
             Inl (ValueError (''Missing required field '' @ [CHR 0x27] @ field @ [CHR 0x27]
                              @ '' in config file: '' @ config_file))
         | None \<Rightarrow> Inr config)"

section \<open>Query Builder\<close>

definition build_query :: "string list \<Rightarrow> string list option \<Rightarrow> string" where
  "build_query kws cats =
     (let kw_part = join '' OR '' (map (\<lambda>kw. ''all:'' @ [CHR 0x22] @ kw @ [CHR 0x22]) kws)
      in case cats of
           Some (c # cs) \<Rightarrow>
             (let cat_part = join '' OR '' (map (\<lambda>c. ''cat:'' @ c) (c # cs))
              in ''('' @ kw_part @ '') AND ('' @ cat_part @ '')'')
         | _ \<Rightarrow> ''('' @ kw_part @ '')'')"

definition build_search_query :: "config \<Rightarrow> 'n world \<Rightarrow> string \<times> 'n world" where
  "build_search_query config w =
     (let kws = (case cfg_keywords config of None \<Rightarrow> [] | Some ks \<Rightarrow> ks);
          cats = (case cfg_ArXiv_categories config of None \<Rightarrow> [] | Some cs \<Rightarrow> cs);
          query = build_query kws (Some cats)
      in (query, emit (Print_query query) w))"

section \<open>Page Fetcher\<close>

text \<open>
  One request to the search service. A transport error and a non-success status are
  raised; otherwise the parsed feed is returned. The sort parameters and the timeout are
  the defaults of the source at every call and are left out.
\<close>

definition feed_entries :: "feed \<Rightarrow> entry list" where
  "feed_entries f = (case f of None \<Rightarrow> [] | Some es \<Rightarrow> es)"

definition arxiv_search ::
  "'n env \<Rightarrow> string \<Rightarrow> int \<Rightarrow> int \<Rightarrow> string \<Rightarrow> 'n world \<Rightarrow> (error + feed) \<times> 'n world" where
  "arxiv_search env search_query start max_results api w =
     (case search env (net w) api search_query start max_results of
        (r, n) \<Rightarrow>
          (r, emit (Search api search_query start max_results
                      (case r of Inl err \<Rightarrow> Inl err | Inr f \<Rightarrow> Inr (length (feed_entries f))))
                (w\<lparr>net := n\<rparr>)))"

section \<open>Pagination Driver\<close>

text \<open>
  The \<open>while\<close> loop of \<open>fetch_and_process_papers\<close>, with its variables \<open>fetched\<close> and
  \<open>all_records\<close> as arguments. An error of the Page Fetcher leaves the loop as the result.
\<close>

function fetch_loop ::
  "'n env \<Rightarrow> string \<Rightarrow> string \<Rightarrow> int \<Rightarrow> int \<Rightarrow> int \<Rightarrow> paper list \<Rightarrow> 'n world
   \<Rightarrow> (error + paper list) \<times> 'n world" where
  "fetch_loop env query arxiv_api batch_size total_to_fetch fetched all_records w =
     (if fetched < total_to_fetch
      then (case arxiv_search env query fetched (min batch_size (total_to_fetch - fetched)) arxiv_api w of
              (Inl err, w1) \<Rightarrow> (Inl err, w1)
            | (Inr f, w1) \<Rightarrow>
                (if feed_entries f = []
                 then (Inr all_records, emit Print_no_more w1)
                 else fetch_loop env query arxiv_api batch_size total_to_fetch
                        (fetched + int (length (feed_entries f)))
                        (all_records @ map (fetch_entry (utcnow env (net w1))) (feed_entries f))
                        (emit Sleep
                          (emit (Print_fetched (fetched + int (length (feed_entries f)))) w1))))
      else (Inr all_records, w))"
  by pat_completeness auto
termination
  by (relation "measure (\<lambda>(env, query, arxiv_api, batch_size, total_to_fetch, fetched, all_records, w).
                   nat (total_to_fetch - fetched))") auto

declare fetch_loop.simps [simp del]

definition fetch_and_process_papers ::
  "'n env \<Rightarrow> string \<Rightarrow> config \<Rightarrow> 'n world \<Rightarrow> (error + paper list) \<times> 'n world" where
  "fetch_and_process_papers env query config w =
     (case cfg_out_jsonl config of
        None \<Rightarrow> (Inl (KeyError ''out_jsonl''), w)
      | Some out_jsonl \<Rightarrow>
     (case cfg_batch_size config of
        None \<Rightarrow> (Inl (KeyError ''batch_size''), w)
      | Some batch_size \<Rightarrow>
     (case cfg_total_to_fetch config of
        None \<Rightarrow> (Inl (KeyError ''total_to_fetch''), w)
      | Some total_to_fetch \<Rightarrow>
     (case cfg_ArXiv_api config of
        None \<Rightarrow> (Inl (KeyError ''ArXiv_api''), w)
      | Some arxiv_api \<Rightarrow>
     (case fetch_loop env query arxiv_api batch_size total_to_fetch 0 [] w of
        (Inl err, w1) \<Rightarrow> (Inl err, w1)
      | (Inr all_records, w1) \<Rightarrow>
          (case save_jsonl env out_jsonl all_records w1 of
             (Inl err, w2) \<Rightarrow> (Inl err, w2)
           | (Inr u, w2) \<Rightarrow>
               (Inr all_records,
                emit (Print_saved (length all_records) out_jsonl) w2)))))))"

section \<open>Artifact Downloader\<close>

definition download_pdf ::
  "'n env \<Rightarrow> string \<Rightarrow> string \<Rightarrow> 'n world \<Rightarrow> (error + unit) \<times> 'n world" where
  "download_pdf env url out_path w =
     (case transfer env (net w) url of
        (t, n) \<Rightarrow>
          (let w1 = emit (Get url out_path) (w\<lparr>net := n\<rparr>)
           in case t of
                Connect_fails err \<Rightarrow> (Inl err, w1)
              | Status_fails err \<Rightarrow> (Inl err, w1)
              | Body chunks failure \<Rightarrow>
                  (case open_wb out_path w1 of
                     Inl err \<Rightarrow> (Inl err, w1)
                   | Inr w2 \<Rightarrow>
                       (let w3 = foldl (\<lambda>v chunk. if chunk \<noteq> [] then write_file out_path chunk v
                                                  else v) w2 chunks
                        in case failure of
                             Some err \<Rightarrow> (Inl err, w3)
                           | None \<Rightarrow> (Inr (), w3)))))"

text \<open>
  The destination of a record in \<open>pdf_dir\<close>, from its identifier: slashes become
  underscores and \<open>.pdf\<close> is appended.
\<close>

definition pdf_path_of :: "string \<Rightarrow> string \<Rightarrow> string" where
  "pdf_path_of dir a_id = path_join dir (replace ''/'' ''_'' a_id @ ''.pdf'')"

text \<open>The body of the loop over the records, for one record.\<close>

definition download_one :: "'n env \<Rightarrow> string \<Rightarrow> 'n world \<Rightarrow> paper \<Rightarrow> 'n world" where
  "download_one env dir w rec =
     (if \<not> truthy (pdf_url rec) then w
      else if path_exists w (pdf_path_of dir (arxiv_id rec)) then w
      else (case download_pdf env (the (pdf_url rec)) (pdf_path_of dir (arxiv_id rec)) w of
              (Inr u, w1) \<Rightarrow>
                emit Sleep (emit (Print_downloaded (pdf_path_of dir (arxiv_id rec))) w1)
            | (Inl ex, w1) \<Rightarrow> emit (Print_failed (arxiv_id rec) ex) w1))"

definition download_pdfs_for_records ::
  "'n env \<Rightarrow> paper list \<Rightarrow> string \<Rightarrow> 'n world \<Rightarrow> (error + unit) \<times> 'n world" where
  "download_pdfs_for_records env records dir w =
     (case makedirs dir w of
        Inl err \<Rightarrow> (Inl err, w)
      | Inr w1 \<Rightarrow> (Inr (), foldl (download_one env dir) w1 records))"

section \<open>The run\<close>

text \<open>\<open>main\<close>, from the parsed configuration file on.\<close>

definition main :: "'n env \<Rightarrow> string \<Rightarrow> config \<Rightarrow> 'n world \<Rightarrow> (error + unit) \<times> 'n world" where
  "main env config_file parsed w =
     (case load_config config_file parsed of
        Inl err \<Rightarrow> (Inl err, w)
      | Inr config \<Rightarrow>
          (case build_search_query config w of
             (query, w1) \<Rightarrow>
               (case fetch_and_process_papers env query config w1 of
                  (Inl err, w2) \<Rightarrow> (Inl err, w2)
                | (Inr all_records, w2) \<Rightarrow>
                    (case cfg_download_pdfs config of
                       None \<Rightarrow> (Inl (KeyError ''download_pdfs''), w2)
                     | Some flag \<Rightarrow>
                         (if flag
                          then (case cfg_pdf_dir config of
                                  None \<Rightarrow> (Inl (KeyError ''pdf_dir''), w2)
                                | Some dir \<Rightarrow> download_pdfs_for_records env all_records dir w2)
                          else (Inr (), w2))))))"

section \<open>Test doubles\<close>

text \<open>
  A Page Fetcher stub: the state of the remote side is the list of responses still to be
  given, each an error to raise or a parsed feed. Each call gives the next response
  whatever is asked; when none is left the source is exhausted and every further call
  returns a feed without entries.
\<close>

definition stub_search ::
  "(error + feed) list \<Rightarrow> string \<Rightarrow> string \<Rightarrow> int \<Rightarrow> int
   \<Rightarrow> (error + feed) \<times> (error + feed) list" where
  "stub_search rs api q start max_results =
     (case rs of [] \<Rightarrow> (Inr (Some []), []) | r # rest \<Rightarrow> (r, rest))"

text \<open>The responses of a source that serves the given pages.\<close>

definition pages :: "entry list list \<Rightarrow> (error + feed) list" where
  "pages ps = map (\<lambda>p. Inr (Some p)) ps"

text \<open>
  An environment around the stub: an artifact transfer is decided by its URL alone, the
  clock stands still and a record is serialised as its identifier.
\<close>

definition stub_env :: "(string \<Rightarrow> transfer) \<Rightarrow> ((error + feed) list) env" where
  "stub_env tr =
     \<lparr> search = stub_search,
       transfer = (\<lambda>n url. (tr url, n)),
       utcnow = (\<lambda>n. ''2024-01-01T00:00:00''),
       dumps = arxiv_id \<rparr>"

text \<open>A world with no file, no directory and an empty log.\<close>

definition world0 :: "'n \<Rightarrow> 'n world" where
  "world0 n = \<lparr> net = n, files = Map.empty, dirs = {}, trace = [] \<rparr>"

text \<open>An entry that carries an identifier and nothing else.\<close>

definition only_id :: "string \<Rightarrow> entry" where
  "only_id i =
     \<lparr> raw_id = Some i, raw_title = None, raw_summary = None, raw_authors = None,
       raw_published = None, raw_updated = None, raw_links = None, raw_tags = None \<rparr>"

text \<open>A configuration file with the required keys and no endpoint option, as parsed.\<close>

definition example_config :: config where
  "example_config =
     \<lparr> cfg_out_jsonl = Some ''data/papers.jsonl'',
       cfg_download_pdfs = Some True,
       cfg_pdf_dir = Some ''data/pdfs'',
       cfg_batch_size = Some 100,
       cfg_total_to_fetch = Some 250,
       cfg_keywords = Some [''llm'', ''rag''],
       cfg_ArXiv_categories = Some [''cs.CL''],
       cfg_arxiv_api = None,
       cfg_ArXiv_api = None \<rparr>"

text \<open>A record with an identifier and an artifact URL, and nothing else.\<close>

definition rec_of :: "string \<Rightarrow> string \<Rightarrow> paper" where
  "rec_of a_id url =
     \<lparr> arxiv_id = a_id, title = [], summary = [], authors = [], published = None,
       updated = None, abs_url = None, pdf_url = Some url, categories = [],
       fetched_at_utc = ''2024-01-01T00:00:00Z'' \<rparr>"



definition breaks_partway :: "string \<Rightarrow> transfer" where
  "breaks_partway url = Body [''%PDF-1.''] (Some (RequestError ''connection broken''))"

definition succeeds :: "string \<Rightarrow> transfer" where
  "succeeds url = Body [''%PDF-1.7 complete''] None"

section \<open>Reading the log\<close>

definition is_search :: "event \<Rightarrow> bool" where
  "is_search ev = (case ev of Search a q s m r \<Rightarrow> True | _ \<Rightarrow> False)"

definition is_failed_search :: "event \<Rightarrow> bool" where
  "is_failed_search ev =
     (case ev of
        Search a q s m r \<Rightarrow> (case r of Inl err \<Rightarrow> True | Inr k \<Rightarrow> False)
      | _ \<Rightarrow> False)"

definition is_append :: "event \<Rightarrow> bool" where
  "is_append ev = (case ev of Append p k \<Rightarrow> True | _ \<Rightarrow> False)"

definition is_sleep :: "event \<Rightarrow> bool" where
  "is_sleep ev = (case ev of Sleep \<Rightarrow> True | _ \<Rightarrow> False)"

text \<open>
  An event is about a destination when it is a request for it, or the report of a
  download to it or of a failure for a record that is stored there.
\<close>

definition about :: "string \<Rightarrow> string \<Rightarrow> event \<Rightarrow> bool" where
  "about dir p ev =
     (case ev of
        Get u q \<Rightarrow> q = p
      | Print_downloaded q \<Rightarrow> q = p
      | Print_failed i ex \<Rightarrow> pdf_path_of dir i = p
      | _ \<Rightarrow> False)"

section \<open>Facts about strings\<close>

text \<open>
  Replacing \<open>https://\<close> by \<open>http://\<close> neither creates nor destroys an occurrence of
  \<open>/abs/\<close>: the test the source makes on the rewritten URL is a test on the URL itself.
\<close>

lemma prefix_abs_replace:
  "prefix ''abs/'' (replace ''https://'' ''http://'' s) = prefix ''abs/'' s"
  apply (cases s; simp)
  subgoal for a s1
    apply (cases s1; simp)
    subgoal for b s2
      apply (cases s2; simp)
      subgoal for c s3
        by (cases s3; simp) auto
      done
    done
  done

lemma contains_replace_scheme:
  "contains ''/abs/'' (replace ''https://'' ''http://'' s) = contains ''/abs/'' s"
proof (induction s rule: length_induct)
  case (1 s)
  show ?case
  proof (cases s)
    case Nil
    then show ?thesis by simp
  next
    case (Cons c cs)
    show ?thesis
    proof (cases "prefix ''https://'' (c # cs)")
      case True
      then obtain r where r: "c # cs = ''https://'' @ r"
        by (auto simp: prefix_def)
      then have d: "drop (length ''ttps://'') cs = r"
        by auto
      have "length r < length s"
        using r Cons by auto
      then have ih: "contains ''/abs/'' (replace ''https://'' ''http://'' r) = contains ''/abs/'' r"
        using 1 by blast
      have a: "replace ''https://'' ''http://'' (c # cs)
                 = ''http://'' @ replace ''https://'' ''http://'' r"
        using True d by simp
      show ?thesis
        unfolding Cons a unfolding r using ih prefix_abs_replace [of r] by simp
    next
      case False
      have ih: "contains ''/abs/'' (replace ''https://'' ''http://'' cs) = contains ''/abs/'' cs"
        using 1 Cons by simp
      show ?thesis
        unfolding Cons using False ih prefix_abs_replace [of cs] by auto
    qed
  qed
qed

section \<open>Record Normalizer: artifact URL and missing fields\<close>

text \<open>
  Claim C9. The artifact URL is resolved in this order: the \<open>href\<close> of the first link
  whose type is \<open>application/pdf\<close>, if the entry has such a link; otherwise, if the
  identifier contains \<open>/abs/\<close>, the identifier with \<open>https://\<close> replaced by \<open>http://\<close>,
  \<open>/abs/\<close> replaced by \<open>/pdf/\<close> and \<open>.pdf\<close> appended; otherwise none.
\<close>

theorem artifact_url_resolution_order:
  "extract_pdf_url e =
     (case find (\<lambda>l. link_type l = Some ''application/pdf'')
                (case raw_links e of None \<Rightarrow> [] | Some ls \<Rightarrow> ls) of
        Some l \<Rightarrow> link_href l
      | None \<Rightarrow>
          (case raw_id e of
             None \<Rightarrow> None
           | Some u \<Rightarrow>
               if contains ''/abs/'' u
               then Some (replace ''/abs/'' ''/pdf/'' (replace ''https://'' ''http://'' u)
                          @ ''.pdf'')
               else None))"
  by (cases "raw_id e")
     (auto simp: extract_pdf_url_def truthy_def Let_def contains_replace_scheme
           split: option.splits)

text \<open>
  The example of the specification: \<open>https://host/abs/2401.12345\<close> without a PDF link
  resolves to \<open>http://host/pdf/2401.12345.pdf\<close>.
\<close>

theorem artifact_url_resolution_order_witness:
  "extract_pdf_url (only_id ''https://host/abs/2401.12345'')
     = Some ''http://host/pdf/2401.12345.pdf''"
  using artifact_url_resolution_order [of "only_id ''https://host/abs/2401.12345''"]
  by (simp add: only_id_def)






section \<open>Pagination Driver: bounded fetch and short pages\<close>

text \<open>
  Claim C1. With \<open>total_to_fetch = 250\<close> and \<open>batch_size = 100\<close>, against the stub serving
  100, 100 and then 0 entries, the loop makes exactly three calls of the Page Fetcher, at
  the offsets 0, 100 and 200, each sized \<open>min(batch_size, remaining)\<close>, that is 100, 100
  and 50, and ends with the 200 normalized records of the two pages.
\<close>

theorem pagination_bounded_fetch:
  assumes s: "search env = stub_search" and l1: "length p1 = 100" and l2: "length p2 = 100"
    and n: "net w = pages [p1, p2, []]"
  shows "fetch_loop env query api 100 250 0 [] w =
           (Inr (map (fetch_entry (utcnow env (pages [p2, []]))) p1
                 @ map (fetch_entry (utcnow env (pages [[]]))) p2),
            w\<lparr>net := [],
              trace := trace w @
                [Search api query 0 (min 100 (250 - 0)) (Inr 100), Print_fetched 100, Sleep,
                 Search api query 100 (min 100 (250 - 100)) (Inr 100), Print_fetched 200, Sleep,
                 Search api query 200 (min 100 (250 - 200)) (Inr 0), Print_no_more]\<rparr>)
         \<and> length (map (fetch_entry (utcnow env (pages [p2, []]))) p1
                   @ map (fetch_entry (utcnow env (pages [[]]))) p2) = 200"
proof -
  have ne1: "p1 \<noteq> []" and ne2: "p2 \<noteq> []" using l1 l2 by auto
  have "fetch_loop env query api 100 250 0 [] w =
           (Inr (map (fetch_entry (utcnow env (pages [p2, []]))) p1
                 @ map (fetch_entry (utcnow env (pages [[]]))) p2),
            w\<lparr>net := [],
              trace := trace w @
                [Search api query 0 100 (Inr 100), Print_fetched 100, Sleep,
                 Search api query 100 100 (Inr 100), Print_fetched 200, Sleep,
                 Search api query 200 50 (Inr 0), Print_no_more]\<rparr>)"
    apply (subst fetch_loop.simps)
    apply (simp add: arxiv_search_def s stub_search_def n feed_entries_def emit_def ne1 l1 pages_def)
    apply (subst fetch_loop.simps)
    apply (simp add: arxiv_search_def s stub_search_def n feed_entries_def emit_def ne2 l2 pages_def)
    apply (subst fetch_loop.simps)
    apply (simp add: arxiv_search_def s stub_search_def n feed_entries_def emit_def pages_def)
    done
  then show ?thesis using l1 l2 by simp
qed

theorem pagination_bounded_fetch_witness:
  "length (replicate 100 (only_id ''http://arxiv.org/abs/1'')) = 100
   \<and> (case fetch_loop (stub_env (\<lambda>u. Body [] None)) ''q'' DEFAULT_ARXIV_API 100 250 0 []
              (world0 (pages [replicate 100 (only_id ''http://arxiv.org/abs/1''),
                       replicate 100 (only_id ''http://arxiv.org/abs/2''), []])) of
         (res, w') \<Rightarrow>
           (case res of Inl err \<Rightarrow> False | Inr recs \<Rightarrow> length recs = 200)
           \<and> filter (\<lambda>ev. case ev of Search a q s m r \<Rightarrow> True | _ \<Rightarrow> False) (trace w')
               = [Search DEFAULT_ARXIV_API ''q'' 0 100 (Inr 100),
                  Search DEFAULT_ARXIV_API ''q'' 100 100 (Inr 100),
                  Search DEFAULT_ARXIV_API ''q'' 200 50 (Inr 0)])"
  using pagination_bounded_fetch [of "stub_env (\<lambda>u. Body [] None)"
          "replicate 100 (only_id ''http://arxiv.org/abs/1'')"
          "replicate 100 (only_id ''http://arxiv.org/abs/2'')"
          "world0 (pages [replicate 100 (only_id ''http://arxiv.org/abs/1''),
                   replicate 100 (only_id ''http://arxiv.org/abs/2''), []])"
          "''q''" DEFAULT_ARXIV_API]
  by (simp add: stub_env_def world0_def pages_def)

text \<open>
  Claim C2. With \<open>total_to_fetch = 150\<close> and \<open>batch_size = 100\<close>, against the stub serving
  100 and then 30 entries, the offset advances by the counts returned, to 100 and then to
  130; the call at offset 130 returns no entry, which ends the loop with the 130 records.
\<close>

theorem pagination_short_page:
  assumes s: "search env = stub_search" and l1: "length p1 = 100" and l2: "length p2 = 30"
    and n: "net w = pages [p1, p2]"
  shows "fetch_loop env query api 100 150 0 [] w =
           (Inr (map (fetch_entry (utcnow env (pages [p2]))) p1
                 @ map (fetch_entry (utcnow env (pages []))) p2),
            w\<lparr>net := [],
              trace := trace w @
                [Search api query 0 100 (Inr 100), Print_fetched 100, Sleep,
                 Search api query 100 50 (Inr 30), Print_fetched 130, Sleep,
                 Search api query 130 20 (Inr 0), Print_no_more]\<rparr>)
         \<and> length (map (fetch_entry (utcnow env (pages [p2]))) p1
                   @ map (fetch_entry (utcnow env (pages []))) p2) = 130"
proof -
  have ne1: "p1 \<noteq> []" and ne2: "p2 \<noteq> []" using l1 l2 by auto
  have "fetch_loop env query api 100 150 0 [] w =
           (Inr (map (fetch_entry (utcnow env (pages [p2]))) p1
                 @ map (fetch_entry (utcnow env (pages []))) p2),
            w\<lparr>net := [],
              trace := trace w @
                [Search api query 0 100 (Inr 100), Print_fetched 100, Sleep,
                 Search api query 100 50 (Inr 30), Print_fetched 130, Sleep,
                 Search api query 130 20 (Inr 0), Print_no_more]\<rparr>)"
    apply (subst fetch_loop.simps)
    apply (simp add: arxiv_search_def s stub_search_def n feed_entries_def emit_def ne1 l1 pages_def)
    apply (subst fetch_loop.simps)
    apply (simp add: arxiv_search_def s stub_search_def n feed_entries_def emit_def ne2 l2 pages_def)
    apply (subst fetch_loop.simps)
    apply (simp add: arxiv_search_def s stub_search_def n feed_entries_def emit_def pages_def)
    done
  then show ?thesis using l1 l2 by simp
qed

theorem pagination_short_page_witness:
  "length (replicate 30 (only_id ''http://arxiv.org/abs/2'')) = 30
   \<and> (case fetch_loop (stub_env (\<lambda>u. Body [] None)) ''q'' DEFAULT_ARXIV_API 100 150 0 []
              (world0 (pages [replicate 100 (only_id ''http://arxiv.org/abs/1''),
                       replicate 30 (only_id ''http://arxiv.org/abs/2'')])) of
         (res, w') \<Rightarrow>
           (case res of Inl err \<Rightarrow> False | Inr recs \<Rightarrow> length recs = 130)
           \<and> filter (\<lambda>ev. case ev of Search a q s m r \<Rightarrow> True | _ \<Rightarrow> False) (trace w')
               = [Search DEFAULT_ARXIV_API ''q'' 0 100 (Inr 100),
                  Search DEFAULT_ARXIV_API ''q'' 100 50 (Inr 30),
                  Search DEFAULT_ARXIV_API ''q'' 130 20 (Inr 0)])"
  using pagination_short_page [of "stub_env (\<lambda>u. Body [] None)"
          "replicate 100 (only_id ''http://arxiv.org/abs/1'')"
          "replicate 30 (only_id ''http://arxiv.org/abs/2'')"
          "world0 (pages [replicate 100 (only_id ''http://arxiv.org/abs/1''),
                   replicate 30 (only_id ''http://arxiv.org/abs/2'')])"
          "''q''" DEFAULT_ARXIV_API]
  by (simp add: stub_env_def world0_def pages_def)

section \<open>Pagination Driver: what a run does to the world\<close>

lemma is_append_simps [simp]:
  "is_append (Search a q s m r) = False" "is_append (Get u p) = False"
  "is_append (Append p k) = True" "is_append Sleep = False"
  "is_append (Print_query x) = False" "is_append Print_no_more = False"
  "is_append (Print_fetched i) = False" "is_append (Print_saved k p) = False"
  "is_append (Print_downloaded p) = False" "is_append (Print_failed x e) = False"
  by (simp_all add: is_append_def)

lemma is_failed_search_simps [simp]:
  "is_failed_search (Search a q s m (Inl err)) = True"
  "is_failed_search (Search a q s m (Inr j)) = False"
  "is_failed_search (Get u p) = False"
  "is_failed_search (Append p k) = False" "is_failed_search Sleep = False"
  "is_failed_search (Print_query x) = False" "is_failed_search Print_no_more = False"
  "is_failed_search (Print_fetched i) = False" "is_failed_search (Print_saved k p) = False"
  "is_failed_search (Print_downloaded p) = False" "is_failed_search (Print_failed x e) = False"
  by (simp_all add: is_failed_search_def)

lemma arxiv_search_effect:
  assumes "arxiv_search env q s m api w = (r, w1)"
  shows "files w1 = files w \<and> dirs w1 = dirs w
         \<and> trace w1 = trace w @ [Search api q s m
               (case r of Inl err \<Rightarrow> Inl err | Inr f \<Rightarrow> Inr (length (feed_entries f)))]"
  using assms by (auto simp: arxiv_search_def emit_def split: prod.splits)

lemma fetch_loop_effect:
  assumes "fetch_loop env q api b t f acc w = (res, w')"
  shows "files w' = files w \<and> dirs w' = dirs w \<and>
         (\<exists>evs. trace w' = trace w @ evs \<and> filter is_append evs = [] \<and>
            (case res of
               Inl err \<Rightarrow> (\<exists>pre s m. evs = pre @ [Search api q s m (Inl err)]
                                    \<and> filter is_failed_search pre = [])
             | Inr recs \<Rightarrow> filter is_failed_search evs = []))"
  using assms
proof (induction env q api b t f acc w arbitrary: res w' rule: fetch_loop.induct)
  case (1 env q api b t f acc w)
  show ?case
  proof (cases "f < t")
    case False
    with "1.prems" have "res = Inr acc" "w' = w"
      by (simp_all add: fetch_loop.simps [of env q api b t f acc w])
    then show ?thesis by simp
  next
    case True
    obtain r w1 where as: "arxiv_search env q f (min b (t - f)) api w = (r, w1)"
      by fastforce
    note eff = arxiv_search_effect [OF as]
    show ?thesis
    proof (cases r)
      case (Inl err)
      with "1.prems" True as have "res = Inl err" "w' = w1"
        by (simp_all add: fetch_loop.simps [of env q api b t f acc w])
      then show ?thesis using eff Inl
        by simp
    next
      case (Inr fd)
      show ?thesis
      proof (cases "feed_entries fd = []")
        case True
        with "1.prems" \<open>f < t\<close> as Inr have "res = Inr acc" "w' = emit Print_no_more w1"
          by (simp_all add: fetch_loop.simps [of env q api b t f acc w])
        then show ?thesis using eff Inr
          by (simp add: emit_def)
      next
        case False
        let ?w2 = "emit Sleep (emit (Print_fetched (f + int (length (feed_entries fd)))) w1)"
        have rec: "fetch_loop env q api b t (f + int (length (feed_entries fd)))
                     (acc @ map (fetch_entry (utcnow env (net w1))) (feed_entries fd)) ?w2
                   = (res, w')"
          using "1.prems" \<open>f < t\<close> as Inr False
          by (simp add: fetch_loop.simps [of env q api b t f acc w])
        note ih = "1.IH" [OF \<open>f < t\<close> as [symmetric] Inr False rec]
        from ih obtain evs where
          evs: "trace w' = trace ?w2 @ evs" "filter is_append evs = []"
            "(case res of
               Inl err \<Rightarrow> (\<exists>pre s m. evs = pre @ [Search api q s m (Inl err)]
                                    \<and> filter is_failed_search pre = [])
             | Inr recs \<Rightarrow> filter is_failed_search evs = [])"
          by blast
        let ?new = "[Search api q f (min b (t - f)) (Inr (length (feed_entries fd))),
                     Print_fetched (f + int (length (feed_entries fd))), Sleep]"
        have t2: "trace ?w2 = trace w @ ?new"
          using eff Inr by (simp add: emit_def)
        have fl: "filter is_append ?new = []" "filter is_failed_search ?new = []"
          by simp_all
        have a: "trace w' = trace w @ (?new @ evs)"
          using evs(1) t2 by simp
        have b: "filter is_append (?new @ evs) = []"
          using evs(2) fl by simp
        have c: "(case res of
               Inl err \<Rightarrow> (\<exists>pre s m. ?new @ evs = pre @ [Search api q s m (Inl err)]
                                    \<and> filter is_failed_search pre = [])
             | Inr recs \<Rightarrow> filter is_failed_search (?new @ evs) = [])"
        proof (cases res)
          case (Inl err)
          with evs(3) obtain pre s m where
            "evs = pre @ [Search api q s m (Inl err)]" "filter is_failed_search pre = []"
            by auto
          then have "?new @ evs = (?new @ pre) @ [Search api q s m (Inl err)]
                     \<and> filter is_failed_search (?new @ pre) = []"
            using fl by simp
          then show ?thesis using Inl by (simp del: append_Cons append_assoc)
        next
          case (Inr recs)
          with evs(3) fl show ?thesis by simp
        qed
        have fd: "files w' = files w \<and> dirs w' = dirs w"
          using ih eff by (simp add: emit_def)
        show ?thesis using fd a b c by blast
      qed
    qed
  qed
qed

lemma foldl_write_file_other:
  "trace (foldl (\<lambda>v x. write_file p (g x) v) w xs) = trace w
   \<and> dirs (foldl (\<lambda>v x. write_file p (g x) v) w xs) = dirs w
   \<and> net (foldl (\<lambda>v x. write_file p (g x) v) w xs) = net w"
  by (induction xs arbitrary: w) (simp_all add: write_file_def)

lemma makedirs_effect:
  "makedirs d w = Inr w1 \<Longrightarrow> trace w1 = trace w \<and> net w1 = net w \<and> files w1 = files w"
  by (auto simp: makedirs_def split: if_splits)

lemma open_a_effect:
  "open_a p w = Inr w1 \<Longrightarrow> trace w1 = trace w \<and> net w1 = net w \<and> dirs w1 = dirs w"
  by (auto simp: open_a_def split: if_splits)

lemma save_jsonl_trace:
  assumes "save_jsonl env path recs w = (r, w')"
  shows "trace w' = trace w @ (case r of Inl err \<Rightarrow> [] | Inr u \<Rightarrow> [Append path (length recs)])"
proof (cases "if dirname path \<noteq> [] then makedirs (dirname path) w else Inr w")
  case (Inl err)
  with assms show ?thesis by (auto simp: save_jsonl_def Let_def)
next
  case (Inr w1)
  then have t1: "trace w1 = trace w"
    using makedirs_effect [of "dirname path" w w1] by (auto split: if_splits)
  show ?thesis
  proof (cases "open_a path w1")
    case (Inl err)
    with assms Inr t1 show ?thesis by (auto simp: save_jsonl_def Let_def)
  next
    case open_ok: (Inr w2)
    with assms Inr t1 open_a_effect [OF open_ok] show ?thesis
      by (auto simp: save_jsonl_def Let_def emit_def foldl_write_file_other)
  qed
qed

text \<open>
  Claim C3. In a run of \<open>fetch_and_process_papers\<close> in which a call of the Page Fetcher
  raises, the run ends with that error: the failed call is the last thing logged, so no
  call follows it. No earlier call failed, the metadata file is never opened for
  appending, and the files and directories are those the run started with: nothing of
  the pages fetched before is written.
\<close>

theorem fetch_failure_no_commit:
  assumes run: "fetch_and_process_papers env query config w = (res, w')"
    and tr: "trace w' = trace w @ evs"
    and failed: "Search a q s m (Inl err) \<in> set evs"
  shows "res = Inl err \<and> files w' = files w \<and> dirs w' = dirs w
         \<and> filter is_append evs = []
         \<and> (\<exists>pre. evs = pre @ [Search a q s m (Inl err)] \<and> filter is_failed_search pre = [])"
proof -
  have nofail: False if "filter is_failed_search evs = []"
  proof -
    from failed have "Search a q s m (Inl err) \<in> set (filter is_failed_search evs)"
      by simp
    with that show False by simp
  qed
  have evs_nonempty: "evs \<noteq> []" using failed by auto
  obtain out_jsonl batch total api where
    keys: "cfg_out_jsonl config = Some out_jsonl" "cfg_batch_size config = Some batch"
      "cfg_total_to_fetch config = Some total" "cfg_ArXiv_api config = Some api"
    using run tr evs_nonempty
    by (auto simp: fetch_and_process_papers_def split: option.splits)
  obtain lres w1 where loop: "fetch_loop env query api batch total 0 [] w = (lres, w1)"
    by fastforce
  from fetch_loop_effect [OF loop] obtain levs where
    l: "files w1 = files w" "dirs w1 = dirs w" "trace w1 = trace w @ levs"
      "filter is_append levs = []"
      "(case lres of
          Inl e \<Rightarrow> (\<exists>pre s m. levs = pre @ [Search api query s m (Inl e)]
                             \<and> filter is_failed_search pre = [])
        | Inr recs \<Rightarrow> filter is_failed_search levs = [])"
    by blast
  show ?thesis
  proof (cases lres)
    case (Inl e)
    with run keys loop have r: "res = Inl e" "w' = w1"
      by (simp_all add: fetch_and_process_papers_def)
    with tr l(3) have ev: "evs = levs" by simp
    from l(5) Inl obtain pre s' m' where
      p: "levs = pre @ [Search api query s' m' (Inl e)]" "filter is_failed_search pre = []"
      by auto
    have "Search a q s m (Inl err) \<notin> set pre"
    proof
      assume "Search a q s m (Inl err) \<in> set pre"
      then have "Search a q s m (Inl err) \<in> set (filter is_failed_search pre)" by simp
      with p(2) show False by simp
    qed
    with failed ev p(1) have same: "Search a q s m (Inl err) = Search api query s' m' (Inl e)"
      by auto
    then have "err = e" by simp
    with r l ev p same show ?thesis by auto
  next
    case (Inr recs)
    obtain sres w2 where save: "save_jsonl env out_jsonl recs w1 = (sres, w2)"
      by fastforce
    note st = save_jsonl_trace [OF save]
    have "filter is_failed_search evs = []"
    proof (cases sres)
      case (Inl e)
      with run keys loop Inr save have "w' = w2"
        by (simp add: fetch_and_process_papers_def)
      with st Inl tr l(3) have "evs = levs" by simp
      with l(5) Inr show ?thesis by simp
    next
      case sok: (Inr u)
      with run keys loop Inr save have "w' = emit (Print_saved (length recs) out_jsonl) w2"
        by (simp add: fetch_and_process_papers_def)
      with st sok tr l(3) have "evs = levs @ [Append out_jsonl (length recs),
                                           Print_saved (length recs) out_jsonl]"
        by (simp add: emit_def)
      with l(5) Inr show ?thesis by simp
    qed
    with nofail show ?thesis by blast
  qed
qed


theorem fetch_failure_no_commit_witness:
  "fetch_and_process_papers (stub_env (\<lambda>u. Body [] None)) ''q''
     (example_config\<lparr>cfg_ArXiv_api := Some DEFAULT_ARXIV_API\<rparr>)
     (world0 [Inr (Some [only_id ''http://arxiv.org/abs/1'']), Inl (RequestError ''timeout'')])
   = (Inl (RequestError ''timeout''),
      \<lparr> net = [], files = Map.empty, dirs = {},
        trace = [Search DEFAULT_ARXIV_API ''q'' 0 100 (Inr 1), Print_fetched 1, Sleep,
                 Search DEFAULT_ARXIV_API ''q'' 1 100 (Inl (RequestError ''timeout''))] \<rparr>)"
proof -
  let ?env = "stub_env (\<lambda>u. Body [] None)"
  let ?cfg = "example_config\<lparr>cfg_ArXiv_api := Some DEFAULT_ARXIV_API\<rparr>"
  let ?w = "world0 [Inr (Some [only_id ''http://arxiv.org/abs/1'']), Inl (RequestError ''timeout'')]"
  let ?evs = "[Search DEFAULT_ARXIV_API ''q'' 0 100 (Inr 1), Print_fetched 1, Sleep,
               Search DEFAULT_ARXIV_API ''q'' 1 100 (Inl (RequestError ''timeout''))]"
  obtain res w' where run: "fetch_and_process_papers ?env ''q'' ?cfg ?w = (res, w')"
    by fastforce
  have loop: "fetch_loop ?env ''q'' DEFAULT_ARXIV_API 100 250 0 [] ?w
                = (Inl (RequestError ''timeout''),
                   \<lparr> net = [], files = Map.empty, dirs = {}, trace = ?evs \<rparr>)"
    apply (subst fetch_loop.simps)
    apply (simp add: arxiv_search_def stub_env_def stub_search_def world0_def feed_entries_def
             emit_def)
    apply (subst fetch_loop.simps)
    apply (simp add: arxiv_search_def stub_env_def stub_search_def world0_def feed_entries_def
             emit_def)
    done
  then have w': "net w' = [] \<and> trace w' = trace ?w @ ?evs"
    using run by (auto simp: fetch_and_process_papers_def example_config_def world0_def)
  then have tr: "trace w' = trace ?w @ ?evs" by simp
  have failed: "Search DEFAULT_ARXIV_API ''q'' 1 100 (Inl (RequestError ''timeout'')) \<in> set ?evs"
    by simp
  from fetch_failure_no_commit [OF run tr failed]
  have "res = Inl (RequestError ''timeout'') \<and> files w' = files ?w \<and> dirs w' = dirs ?w"
    by blast
  with w' have "res = Inl (RequestError ''timeout'')
     \<and> w' = \<lparr> net = [], files = Map.empty, dirs = {}, trace = ?evs \<rparr>"
    by (cases w') (simp add: world0_def)
  with run show ?thesis by simp
qed

section \<open>Pagination Driver: the empty run\<close>

lemma dirname_shorter:
  assumes "p \<noteq> []" and "\<not> suffix ''/'' p"
  shows "length (dirname p) < length p"
proof -
  obtain c r where cr: "rev p = c # r"
    using assms(1) by (cases "rev p") auto
  then have p: "p = rev r @ [c]" by (metis rev.simps(2) rev_rev_ident)
  have "c \<noteq> CHR ''/''"
    using assms(2) p by (auto simp: suffix_def)
  then have "dropWhile (\<lambda>c. c \<noteq> CHR ''/'') (rev p) = dropWhile (\<lambda>c. c \<noteq> CHR ''/'') r"
    using cr by simp
  moreover have "length (dropWhile (\<lambda>c. c \<noteq> CHR ''/'') r) \<le> length r"
    by (rule length_dropWhile_le)
  moreover have "length (rev (dropWhile (\<lambda>c. c = CHR ''/'')
          (rev (rev (dropWhile (\<lambda>c. c \<noteq> CHR ''/'') (rev p))))))
        \<le> length (dropWhile (\<lambda>c. c \<noteq> CHR ''/'') (rev p))"
    using length_dropWhile_le [of "\<lambda>c. c = CHR ''/''" "dropWhile (\<lambda>c. c \<noteq> CHR ''/'') (rev p)"]
    by simp
  moreover have "length p = Suc (length r)" using p by simp
  ultimately show ?thesis
    by (simp add: dirname_def Let_def)
qed

lemma parent_dirs_shorter: "d \<in> set (parent_dirs p) \<Longrightarrow> length d < length p"
proof (induction p arbitrary: d rule: parent_dirs.induct)
  case (1 p)
  show ?case
  proof (cases "dirname p = [] \<or> length p \<le> length (dirname p)")
    case True
    with "1.prems" show ?thesis by (simp add: parent_dirs.simps [of p])
  next
    case False
    with "1.prems" have "d = dirname p \<or> d \<in> set (parent_dirs (dirname p))"
      by (simp add: parent_dirs.simps [of p] Let_def)
    then show ?thesis
    proof
      assume "d = dirname p"
      with False show ?thesis by simp
    next
      assume "d \<in> set (parent_dirs (dirname p))"
      from "1.IH" [OF refl _ this] False have "length d < length (dirname p)" by simp
      with False show ?thesis by simp
    qed
  qed
qed

text \<open>
  Whatever the file system does, a run with \<open>total_to_fetch \<le> 0\<close> logs no call of the Page
  Fetcher and no pause, and opens the metadata file at most once.
\<close>

lemma empty_run_no_fetch:
  assumes none: "cfg_total_to_fetch config = Some total_to_fetch" "total_to_fetch \<le> 0"
    and run: "fetch_and_process_papers env query config w = (res, w')"
  shows "\<exists>evs. trace w' = trace w @ evs \<and> filter is_search evs = []
               \<and> filter is_sleep evs = [] \<and> length (filter is_append evs) \<le> 1"
proof (cases "cfg_out_jsonl config = None \<or> cfg_batch_size config = None
              \<or> cfg_ArXiv_api config = None")
  case True
  with run none have "w' = w"
    by (auto simp: fetch_and_process_papers_def split: option.splits)
  then show ?thesis by simp
next
  case False
  then obtain out b api where
    keys: "cfg_out_jsonl config = Some out" "cfg_batch_size config = Some b"
      "cfg_ArXiv_api config = Some api"
    by auto
  have loop: "fetch_loop env query api b total_to_fetch 0 [] w = (Inr [], w)"
    using none by (simp add: fetch_loop.simps)
  obtain sres w2 where save: "save_jsonl env out [] w = (sres, w2)" by fastforce
  note st = save_jsonl_trace [OF save]
  show ?thesis
  proof (cases sres)
    case (Inl e)
    with run none keys loop save have "w' = w2"
      by (simp add: fetch_and_process_papers_def)
    with st Inl show ?thesis by simp
  next
    case (Inr u)
    with run none keys loop save have "w' = emit (Print_saved 0 out) w2"
      by (simp add: fetch_and_process_papers_def)
    with st Inr have "trace w' = trace w @ [Append out 0, Print_saved 0 out]"
      by (simp add: emit_def)
    then show ?thesis
      by (simp add: is_search_def is_sleep_def)
  qed
qed
text \<open>
  Claim C10. With \<open>total_to_fetch \<le> 0\<close> the loop body never runs: the log of the run holds
  no call of the Page Fetcher and no pause, the result is the empty list, and the
  metadata file is opened for appending once, with no line written. Where the file
  system lets the file be opened (no regular file stands where a directory is needed,
  and the path is not a directory), the file exists afterwards with what it held before,
  empty if it was absent, and so do the directories above it.
\<close>

theorem empty_run:
  assumes keys: "cfg_out_jsonl config = Some out_jsonl" "cfg_batch_size config = Some batch_size"
      "cfg_total_to_fetch config = Some total_to_fetch" "cfg_ArXiv_api config = Some arxiv_api"
    and none: "total_to_fetch \<le> 0"
    and free: "\<not> list_ex (\<lambda>d. files w d \<noteq> None) (dirname out_jsonl # parent_dirs (dirname out_jsonl))"
    and op: "can_open w out_jsonl"
  shows "fetch_and_process_papers env query config w =
           (Inr [],
            w\<lparr>dirs := dirs w \<union> (if dirname out_jsonl = [] then {}
                                  else set (dirname out_jsonl # parent_dirs (dirname out_jsonl))),
              files := (files w)(out_jsonl \<mapsto>
                          (case files w out_jsonl of None \<Rightarrow> [] | Some old \<Rightarrow> old)),
              trace := trace w @ [Append out_jsonl 0, Print_saved 0 out_jsonl]\<rparr>)"
proof -
  have loop: "fetch_loop env query arxiv_api batch_size total_to_fetch 0 [] w = (Inr [], w)"
    using none by (simp add: fetch_loop.simps)
  have ne: "out_jsonl \<noteq> []" and ns: "\<not> suffix ''/'' out_jsonl" and nd: "out_jsonl \<notin> dirs w"
    using op by (auto simp: can_open_def)
  have short: "length (dirname out_jsonl) < length out_jsonl"
    using dirname_shorter [OF ne ns] .
  have notin: "out_jsonl \<notin> set (dirname out_jsonl # parent_dirs (dirname out_jsonl))"
  proof
    assume "out_jsonl \<in> set (dirname out_jsonl # parent_dirs (dirname out_jsonl))"
    then have "out_jsonl = dirname out_jsonl \<or> out_jsonl \<in> set (parent_dirs (dirname out_jsonl))"
      by auto
    then show False
      using short parent_dirs_shorter [of out_jsonl "dirname out_jsonl"] by auto
  qed
  show ?thesis
  proof (cases "dirname out_jsonl = []")
    case True
    then show ?thesis
      using keys loop op
      by (simp add: fetch_and_process_papers_def save_jsonl_def open_a_def Let_def emit_def)
  next
    case False
    have op2: "can_open (w\<lparr>dirs := dirs w \<union> set (dirname out_jsonl # parent_dirs (dirname out_jsonl))\<rparr>)
                 out_jsonl"
      using ne ns nd notin by (simp add: can_open_def)
    show ?thesis
      using keys loop False free op2
      by (simp add: fetch_and_process_papers_def save_jsonl_def makedirs_def open_a_def Let_def
            emit_def)
  qed
qed

theorem empty_run_witness:
  "fetch_and_process_papers (stub_env (\<lambda>u. Body [] None)) ''q''
     (example_config\<lparr>cfg_total_to_fetch := Some 0, cfg_ArXiv_api := Some DEFAULT_ARXIV_API\<rparr>)
     (world0 (pages [[only_id ''http://arxiv.org/abs/1'']]))
   = (Inr [],
      \<lparr> net = pages [[only_id ''http://arxiv.org/abs/1'']],
        files = [''data/papers.jsonl'' \<mapsto> []],
        dirs = {''data''},
        trace = [Append ''data/papers.jsonl'' 0, Print_saved 0 ''data/papers.jsonl''] \<rparr>)"
proof -
  have d: "dirname ''data/papers.jsonl'' = ''data''"
    by (simp add: dirname_def)
  have d2: "dirname ''data'' = []"
    by (simp add: dirname_def)
  have pd: "parent_dirs ''data'' = []"
    by (simp add: parent_dirs.simps [of "''data''"] d2)
  show ?thesis
    using empty_run [of "example_config\<lparr>cfg_total_to_fetch := Some 0, cfg_ArXiv_api := Some DEFAULT_ARXIV_API\<rparr>"
        "''data/papers.jsonl''" 100 0 DEFAULT_ARXIV_API
        "world0 (pages [[only_id ''http://arxiv.org/abs/1'']])"
        "stub_env (\<lambda>u. Body [] None)" "''q''"]
    by (simp add: example_config_def world0_def d pd can_open_def suffix_to_prefix)
qed

section \<open>Configuration: the endpoint option\<close>

text \<open>
  The example of the specification for the Query Builder, and the default endpoint:
  when the option \<open>arxiv_api\<close> is absent, the loaded configuration holds the built-in
  endpoint under the key the driver reads.
\<close>

lemma build_query_example:
  "build_query [''llm'', ''rag''] (Some [''cs.CL''])
     = ''(all:'' @ [CHR 0x22] @ ''llm'' @ [CHR 0x22] @ '' OR all:'' @ [CHR 0x22] @ ''rag''
        @ [CHR 0x22] @ '') AND (cat:cs.CL)''"
  by (simp add: build_query_def)

lemma default_endpoint_when_absent:
  assumes "cfg_arxiv_api parsed = None" and "load_config file parsed = Inr config"
  shows "cfg_ArXiv_api config = Some DEFAULT_ARXIV_API"
  using assms by (auto simp: load_config_def has_key_def Let_def split: option.splits)
text \<open>
  Claim C7. The claim asks that a supplied \<open>arxiv_api\<close> is the endpoint of every page
  fetch. The code stores the default under the key \<open>ArXiv_api\<close>, which is the key the
  driver reads, and stores nothing under it when \<open>arxiv_api\<close> is present. So for a
  configuration file with the required keys and the option \<open>arxiv_api\<close>, loading succeeds
  and returns the dictionary as parsed, and the run ends with \<open>KeyError('ArXiv_api')\<close>
  after printing the query, before any call of the Page Fetcher: the supplied endpoint
  is never used.
\<close>

theorem endpoint_override_raises:
  assumes over: "cfg_arxiv_api parsed = Some url" "cfg_ArXiv_api parsed = None"
    and req: "cfg_out_jsonl parsed = Some out" "cfg_download_pdfs parsed = Some dl"
      "cfg_pdf_dir parsed = Some pd" "cfg_batch_size parsed = Some b"
      "cfg_total_to_fetch parsed = Some t" "cfg_keywords parsed = Some ks"
      "cfg_ArXiv_categories parsed = Some cs"
  shows "load_config file parsed = Inr parsed
         \<and> main env file parsed w
             = (Inl (KeyError ''ArXiv_api''), emit (Print_query (build_query ks (Some cs))) w)"
proof -
  have lc: "load_config file parsed = Inr parsed"
    using over req by (simp add: load_config_def has_key_def required_fields_def)
  have fp: "fetch_and_process_papers env q parsed v = (Inl (KeyError ''ArXiv_api''), v)" for q v
    using over req by (simp add: fetch_and_process_papers_def)
  show ?thesis
    using lc fp req by (simp add: main_def build_search_query_def Let_def)
qed

theorem endpoint_override_raises_witness:
  "load_config ''fetch_from_arxiv.config.yaml''
     (example_config\<lparr>cfg_arxiv_api := Some ''http://localhost:8000/api/query''\<rparr>)
     = Inr (example_config\<lparr>cfg_arxiv_api := Some ''http://localhost:8000/api/query''\<rparr>)
   \<and> main (stub_env (\<lambda>u. Body [] None)) ''fetch_from_arxiv.config.yaml''
       (example_config\<lparr>cfg_arxiv_api := Some ''http://localhost:8000/api/query''\<rparr>)
       (world0 (pages [[only_id ''http://arxiv.org/abs/1'']]))
     = (Inl (KeyError ''ArXiv_api''),
        \<lparr> net = pages [[only_id ''http://arxiv.org/abs/1'']], files = Map.empty, dirs = {},
          trace = [Print_query (build_query [''llm'', ''rag''] (Some [''cs.CL'']))] \<rparr>)"
  using endpoint_override_raises [of
      "example_config\<lparr>cfg_arxiv_api := Some ''http://localhost:8000/api/query''\<rparr>"
      "''http://localhost:8000/api/query''" "''data/papers.jsonl''" True "''data/pdfs''" 100 250
      "[''llm'', ''rag'']" "[''cs.CL'']" "''fetch_from_arxiv.config.yaml''"
      "stub_env (\<lambda>u. Body [] None)" "world0 (pages [[only_id ''http://arxiv.org/abs/1'']])"]
  by (simp add: example_config_def world0_def emit_def)

section \<open>Artifact Downloader: one record\<close>

text \<open>
  A destination is never empty, never ends with a slash, and can be opened when nothing
  exists there. So the loop body is either a skip, or one transfer whose outcome decides
  the new world.
\<close>

lemma path_join_suffix: "suffix b (path_join a b)"
  by (simp add: path_join_def suffix_def)

lemma pdf_path_shape: "pdf_path_of dir i \<noteq> [] \<and> \<not> suffix ''/'' (pdf_path_of dir i)"
proof -
  have "suffix (replace ''/'' ''_'' i @ ''.pdf'') (pdf_path_of dir i)"
    unfolding pdf_path_of_def by (rule path_join_suffix)
  then obtain xs where p: "pdf_path_of dir i = xs @ ''.pdf''"
    by (auto simp: suffix_def)
  have "\<not> suffix ''/'' (xs @ ''.pdf'')"
  proof
    assume "suffix ''/'' (xs @ ''.pdf'')"
    then obtain zs where "xs @ ''.pdf'' = zs @ ''/''" by (auto simp: suffix_def)
    then have "last (xs @ ''.pdf'') = last (zs @ ''/'')" by simp
    then show False by simp
  qed
  with p show ?thesis by simp
qed

lemma can_open_pdf_path: "\<not> path_exists w (pdf_path_of dir i) \<Longrightarrow> can_open w (pdf_path_of dir i)"
  using pdf_path_shape [of dir i] by (simp add: can_open_def path_exists_def)

lemma foldl_chunks:
  "files w p = Some old \<Longrightarrow>
   foldl (\<lambda>v chunk. if chunk \<noteq> [] then write_file p chunk v else v) w cs
     = w\<lparr>files := (files w)(p \<mapsto> old @ concat cs)\<rparr>"
proof (induction cs arbitrary: w old)
  case Nil
  then have "(files w)(p \<mapsto> old) = files w" by (simp add: map_upd_triv)
  then show ?case by simp
next
  case (Cons c cs)
  show ?case
  proof (cases "c = []")
    case True
    with Cons show ?thesis by simp
  next
    case False
    have wf: "write_file p c w = w\<lparr>files := (files w)(p \<mapsto> old @ c)\<rparr>"
      using Cons.prems by (simp add: write_file_def)
    have "files (w\<lparr>files := (files w)(p \<mapsto> old @ c)\<rparr>) p = Some (old @ c)"
      by simp
    from Cons.IH [OF this]
    have "foldl (\<lambda>v chunk. if chunk \<noteq> [] then write_file p chunk v else v)
            (w\<lparr>files := (files w)(p \<mapsto> old @ c)\<rparr>) cs
          = w\<lparr>files := (files w)(p \<mapsto> (old @ c) @ concat cs)\<rparr>"
      by (simp add: fun_upd_def cong: if_cong)
    with False wf show ?thesis by (simp add: fun_upd_def)
  qed
qed

lemma download_pdf_run:
  assumes tr: "transfer env (net w) url = (t, n)" and op: "can_open w p"
  shows "download_pdf env url p w =
           (case t of
              Connect_fails e \<Rightarrow> (Inl e, w\<lparr>net := n, trace := trace w @ [Get url p]\<rparr>)
            | Status_fails e \<Rightarrow> (Inl e, w\<lparr>net := n, trace := trace w @ [Get url p]\<rparr>)
            | Body cs failure \<Rightarrow>
                ((case failure of Some e \<Rightarrow> Inl e | None \<Rightarrow> Inr ()),
                 w\<lparr>net := n, files := (files w)(p \<mapsto> concat cs),
                   trace := trace w @ [Get url p]\<rparr>))"
proof (cases t)
  case (Body cs failure)
  let ?w1 = "emit (Get url p) (w\<lparr>net := n\<rparr>)"
  have op1: "can_open ?w1 p" using op by (simp add: can_open_def emit_def)
  let ?w2 = "?w1\<lparr>files := (files ?w1)(p \<mapsto> [])\<rparr>"
  have "files ?w2 p = Some []" by simp
  from foldl_chunks [OF this, of cs]
  have "foldl (\<lambda>v chunk. if chunk \<noteq> [] then write_file p chunk v else v) ?w2 cs
          = w\<lparr>net := n, files := (files w)(p \<mapsto> concat cs), trace := trace w @ [Get url p]\<rparr>"
    by (simp add: emit_def)
  then show ?thesis
    using tr Body op1
    by (simp add: download_pdf_def open_wb_def Let_def split: option.splits)
qed (use tr in \<open>simp_all add: download_pdf_def emit_def\<close>)

lemma download_one_skip:
  "\<not> truthy (pdf_url r) \<or> path_exists w (pdf_path_of dir (arxiv_id r))
   \<Longrightarrow> download_one env dir w r = w"
  by (auto simp: download_one_def)

lemma download_one_attempt:
  assumes tu: "truthy (pdf_url r)" and ne: "\<not> path_exists w (pdf_path_of dir (arxiv_id r))"
    and tr: "transfer env (net w) (the (pdf_url r)) = (t, n)"
  shows "download_one env dir w r =
           (case t of
              Connect_fails e \<Rightarrow>
                w\<lparr>net := n,
                  trace := trace w @ [Get (the (pdf_url r)) (pdf_path_of dir (arxiv_id r)),
                                      Print_failed (arxiv_id r) e]\<rparr>
            | Status_fails e \<Rightarrow>
                w\<lparr>net := n,
                  trace := trace w @ [Get (the (pdf_url r)) (pdf_path_of dir (arxiv_id r)),
                                      Print_failed (arxiv_id r) e]\<rparr>
            | Body cs failure \<Rightarrow>
                w\<lparr>net := n,
                  files := (files w)(pdf_path_of dir (arxiv_id r) \<mapsto> concat cs),
                  trace := trace w @
                    (case failure of
                       Some e \<Rightarrow> [Get (the (pdf_url r)) (pdf_path_of dir (arxiv_id r)),
                                  Print_failed (arxiv_id r) e]
                     | None \<Rightarrow> [Get (the (pdf_url r)) (pdf_path_of dir (arxiv_id r)),
                                Print_downloaded (pdf_path_of dir (arxiv_id r)), Sleep])\<rparr>)"
  using tu ne download_pdf_run [OF tr can_open_pdf_path [OF ne]]
  by (cases t) (auto simp: download_one_def emit_def split: option.splits)


lemma about_simps [simp]:
  "about dir p (Get u q) = (q = p)"
  "about dir p (Print_downloaded q) = (q = p)"
  "about dir p (Print_failed i ex) = (pdf_path_of dir i = p)"
  "about dir p (Search a qu s m r) = False" "about dir p (Append q k) = False"
  "about dir p Sleep = False" "about dir p (Print_query x) = False"
  "about dir p Print_no_more = False" "about dir p (Print_fetched j) = False"
  "about dir p (Print_saved k q) = False"
  by (simp_all add: about_def)


lemma download_one_keeps:
  assumes ex: "path_exists w q"
  shows "path_exists (download_one env dir w r) q
         \<and> files (download_one env dir w r) q = files w q
         \<and> (\<exists>evs. trace (download_one env dir w r) = trace w @ evs
                   \<and> filter (about dir q) evs = [])"
proof (cases "\<not> truthy (pdf_url r) \<or> path_exists w (pdf_path_of dir (arxiv_id r))")
  case True
  then show ?thesis using ex by (simp add: download_one_skip)
next
  case False
  obtain t n where tr: "transfer env (net w) (the (pdf_url r)) = (t, n)" by fastforce
  from False have tu: "truthy (pdf_url r)"
    and ne: "\<not> path_exists w (pdf_path_of dir (arxiv_id r))"
    by simp_all
  from ne ex have neq: "pdf_path_of dir (arxiv_id r) \<noteq> q" by auto
  from download_one_attempt [OF tu ne tr] neq ex show ?thesis
    by (cases t) (auto simp: path_exists_def split: option.splits)
qed

lemma download_all_keeps:
  assumes "path_exists w q"
  shows "path_exists (foldl (download_one env dir) w rs) q
         \<and> files (foldl (download_one env dir) w rs) q = files w q
         \<and> (\<exists>evs. trace (foldl (download_one env dir) w rs) = trace w @ evs
                   \<and> filter (about dir q) evs = [])"
  using assms
proof (induction rs arbitrary: w)
  case Nil
  then show ?case by simp
next
  case (Cons r rs)
  from download_one_keeps [OF Cons.prems, where env = env and dir = dir and r = r] obtain evs1 where
    one: "path_exists (download_one env dir w r) q"
      "files (download_one env dir w r) q = files w q"
      "trace (download_one env dir w r) = trace w @ evs1" "filter (about dir q) evs1 = []"
    by blast
  from Cons.IH [OF one(1)] obtain evs2 where
    rest: "path_exists (foldl (download_one env dir) (download_one env dir w r) rs) q"
      "files (foldl (download_one env dir) (download_one env dir w r) rs) q
         = files (download_one env dir w r) q"
      "trace (foldl (download_one env dir) (download_one env dir w r) rs)
         = trace (download_one env dir w r) @ evs2"
      "filter (about dir q) evs2 = []"
    by blast
  have "trace (foldl (download_one env dir) w (r # rs)) = trace w @ (evs1 @ evs2)"
    using one(3) rest(3) by simp
  moreover have "filter (about dir q) (evs1 @ evs2) = []"
    using one(4) rest(4) by simp
  ultimately show ?case
    using one(2) rest(1,2) by (simp del: append_assoc)
qed

lemma makedirs_keeps:
  assumes "makedirs dir w = Inr w1"
  shows "files w1 = files w \<and> trace w1 = trace w \<and> net w1 = net w
         \<and> (path_exists w q \<longrightarrow> path_exists w1 q)"
  using assms by (auto simp: makedirs_def path_exists_def split: if_splits)

text \<open>
  Claim C4. For a record whose destination exists when the downloader starts, the run
  makes no request for that destination and reports no failure for the record, whatever
  the other records are and whatever their transfers do; what is stored at the
  destination is unchanged, and it still exists afterwards. This holds in any world,
  so also in the world an earlier run left: a record downloaded then is not fetched
  again.
\<close>

theorem existing_artifact_skipped:
  assumes ex: "path_exists w (pdf_path_of dir (arxiv_id r))"
    and run: "download_pdfs_for_records env records dir w = (res, w')"
  shows "\<exists>evs. trace w' = trace w @ evs
           \<and> (\<forall>u. Get u (pdf_path_of dir (arxiv_id r)) \<notin> set evs)
           \<and> (\<forall>e. Print_failed (arxiv_id r) e \<notin> set evs)
           \<and> files w' (pdf_path_of dir (arxiv_id r)) = files w (pdf_path_of dir (arxiv_id r))
           \<and> path_exists w' (pdf_path_of dir (arxiv_id r))"
proof (cases "makedirs dir w")
  case (Inl err)
  with run have "w' = w" by (simp add: download_pdfs_for_records_def)
  with ex show ?thesis by simp
next
  case (Inr w1)
  let ?p = "pdf_path_of dir (arxiv_id r)"
  from makedirs_keeps [OF Inr, where q = ?p] ex
  have m: "files w1 = files w" "trace w1 = trace w" "path_exists w1 ?p" by simp_all
  from run Inr have w': "w' = foldl (download_one env dir) w1 records"
    by (simp add: download_pdfs_for_records_def)
  from download_all_keeps [OF m(3), where env = env and rs = records] w' obtain evs where
    k: "path_exists w' ?p" "files w' ?p = files w1 ?p" "trace w' = trace w1 @ evs"
      "filter (about dir ?p) evs = []"
    by blast
  have none: "ev \<in> set evs \<Longrightarrow> \<not> about dir ?p ev" for ev
  proof
    assume "ev \<in> set evs" "about dir ?p ev"
    then have "ev \<in> set (filter (about dir ?p) evs)" by simp
    with k(4) show False by simp
  qed
  have "\<forall>u. Get u ?p \<notin> set evs" using none by fastforce
  moreover have "\<forall>e. Print_failed (arxiv_id r) e \<notin> set evs" using none by fastforce
  ultimately show ?thesis using k m by auto
qed

theorem existing_artifact_skipped_witness:
  "path_exists
     ((world0 [])\<lparr>files := [pdf_path_of ''pdfs'' ''2401.00001'' \<mapsto> ''%PDF-old''],
                  dirs := {''pdfs''}\<rparr>)
     (pdf_path_of ''pdfs'' (arxiv_id (rec_of ''2401.00001'' ''http://arxiv.org/pdf/2401.00001'')))
   \<and> (\<exists>evs.
         trace (snd (download_pdfs_for_records (stub_env (\<lambda>u. Body [''%PDF-new''] None))
                   [rec_of ''2401.00001'' ''http://arxiv.org/pdf/2401.00001''] ''pdfs''
                   ((world0 [])\<lparr>files := [pdf_path_of ''pdfs'' ''2401.00001'' \<mapsto> ''%PDF-old''],
                                dirs := {''pdfs''}\<rparr>))) = [] @ evs
         \<and> (\<forall>u. Get u (pdf_path_of ''pdfs'' ''2401.00001'') \<notin> set evs)
         \<and> (\<forall>e. Print_failed ''2401.00001'' e \<notin> set evs))
   \<and> files (snd (download_pdfs_for_records (stub_env (\<lambda>u. Body [''%PDF-new''] None))
                   [rec_of ''2401.00001'' ''http://arxiv.org/pdf/2401.00001''] ''pdfs''
                   ((world0 [])\<lparr>files := [pdf_path_of ''pdfs'' ''2401.00001'' \<mapsto> ''%PDF-old''],
                                dirs := {''pdfs''}\<rparr>)))
        (pdf_path_of ''pdfs'' ''2401.00001'') = Some ''%PDF-old''"
proof -
  let ?w = "(world0 [])\<lparr>files := [pdf_path_of ''pdfs'' ''2401.00001'' \<mapsto> ''%PDF-old''],
                        dirs := {''pdfs''}\<rparr>"
  let ?r = "rec_of ''2401.00001'' ''http://arxiv.org/pdf/2401.00001''"
  let ?run = "download_pdfs_for_records (stub_env (\<lambda>u. Body [''%PDF-new''] None)) [?r] ''pdfs'' ?w"
  have ex: "path_exists ?w (pdf_path_of ''pdfs'' (arxiv_id ?r))"
    by (simp add: path_exists_def rec_of_def)
  have run: "?run = (fst ?run, snd ?run)" by simp
  from existing_artifact_skipped [OF ex run] ex show ?thesis
    by (simp add: rec_of_def world0_def)
qed

section \<open>Artifact Downloader: failures stay with their record\<close>





text \<open>
  The scenario of the specification, run on the model: three records, the transfer of
  the second raises a transport error.
\<close>

lemma pdf_path_example:
  "pdf_path_of ''pdfs'' ''2401.00001'' = ''pdfs/2401.00001.pdf''"
  "pdf_path_of ''pdfs'' ''2401.00002'' = ''pdfs/2401.00002.pdf''"
  "pdf_path_of ''pdfs'' ''2401.00003'' = ''pdfs/2401.00003.pdf''"
  by (simp_all add: pdf_path_of_def path_join_def suffix_to_prefix)

lemma parent_dirs_pdfs: "parent_dirs ''pdfs'' = []"
  by (simp add: parent_dirs.simps [of "''pdfs''"] dirname_def)

lemma makedirs_pdfs: "makedirs ''pdfs'' (world0 n) = Inr ((world0 n)\<lparr>dirs := {''pdfs''}\<rparr>)"
  by (simp add: makedirs_def world0_def parent_dirs_pdfs)




section \<open>Artifact Downloader: what a failed transfer leaves behind\<close>

text \<open>
  Claim C6, as the code has it. A transfer that fails before the destination is opened
  (the request raises, or the status is not a success) leaves the files as they were:
  nothing is at the destination and the failure is reported. A transfer that reaches
  the body opens the destination first, so what arrived is stored there even when the
  stream breaks: the failure is reported, the partial file stays, and from then on the
  loop body skips the record, whatever the transfer would deliver.
\<close>

theorem transfer_failure_leaves:
  assumes tu: "truthy (pdf_url r)"
    and ne: "\<not> path_exists w (pdf_path_of dir (arxiv_id r))"
    and tr: "transfer env (net w) (the (pdf_url r)) = (t, n)"
  shows "case t of
           Connect_fails e \<Rightarrow>
             files (download_one env dir w r) = files w
             \<and> \<not> path_exists (download_one env dir w r) (pdf_path_of dir (arxiv_id r))
             \<and> last (trace (download_one env dir w r)) = Print_failed (arxiv_id r) e
         | Status_fails e \<Rightarrow>
             files (download_one env dir w r) = files w
             \<and> \<not> path_exists (download_one env dir w r) (pdf_path_of dir (arxiv_id r))
             \<and> last (trace (download_one env dir w r)) = Print_failed (arxiv_id r) e
         | Body cs failure \<Rightarrow>
             files (download_one env dir w r) (pdf_path_of dir (arxiv_id r)) = Some (concat cs)
             \<and> path_exists (download_one env dir w r) (pdf_path_of dir (arxiv_id r))
             \<and> (\<forall>env2. download_one env2 dir (download_one env dir w r) r
                         = download_one env dir w r)
             \<and> last (trace (download_one env dir w r))
                 = (case failure of Some e \<Rightarrow> Print_failed (arxiv_id r) e | None \<Rightarrow> Sleep)"
proof (cases t)
  case (Connect_fails e)
  with download_one_attempt [OF tu ne tr] ne show ?thesis
    by (simp add: path_exists_def)
next
  case (Status_fails e)
  with download_one_attempt [OF tu ne tr] ne show ?thesis
    by (simp add: path_exists_def)
next
  case (Body cs failure)
  note a = download_one_attempt [OF tu ne tr]
  have ex: "path_exists (download_one env dir w r) (pdf_path_of dir (arxiv_id r))"
    using a Body by (simp add: path_exists_def)
  then have skip: "download_one env2 dir (download_one env dir w r) r = download_one env dir w r"
    for env2 :: "'a env"
    by (simp add: download_one_skip)
  from a Body ex skip show ?thesis
    by (cases failure) simp_all
qed

theorem transfer_failure_leaves_witness:
  "files (download_one (stub_env breaks_partway) ''pdfs'' (world0 [])
            (rec_of ''2401.00001'' ''http://arxiv.org/pdf/2401.00001''))
         ''pdfs/2401.00001.pdf'' = Some ''%PDF-1.''
   \<and> path_exists (download_one (stub_env breaks_partway) ''pdfs'' (world0 [])
            (rec_of ''2401.00001'' ''http://arxiv.org/pdf/2401.00001''))
         ''pdfs/2401.00001.pdf''
   \<and> download_one (stub_env succeeds) ''pdfs''
         (download_one (stub_env breaks_partway) ''pdfs'' (world0 [])
            (rec_of ''2401.00001'' ''http://arxiv.org/pdf/2401.00001''))
         (rec_of ''2401.00001'' ''http://arxiv.org/pdf/2401.00001'')
       = download_one (stub_env breaks_partway) ''pdfs'' (world0 [])
            (rec_of ''2401.00001'' ''http://arxiv.org/pdf/2401.00001'')
   \<and> last (trace (download_one (stub_env breaks_partway) ''pdfs'' (world0 [])
            (rec_of ''2401.00001'' ''http://arxiv.org/pdf/2401.00001'')))
       = Print_failed ''2401.00001'' (RequestError ''connection broken'')"
proof -
  let ?r = "rec_of ''2401.00001'' ''http://arxiv.org/pdf/2401.00001''"
  have tu: "truthy (pdf_url ?r)" by (simp add: rec_of_def truthy_def)
  have ne: "\<not> path_exists (world0 []) (pdf_path_of ''pdfs'' (arxiv_id ?r))"
    by (simp add: path_exists_def world0_def)
  have tr: "transfer (stub_env breaks_partway) (net (world0 [])) (the (pdf_url ?r))
              = (Body [''%PDF-1.''] (Some (RequestError ''connection broken'')), [])"
    by (simp add: stub_env_def breaks_partway_def world0_def)
  from transfer_failure_leaves [OF tu ne tr] show ?thesis
    by (simp add: rec_of_def pdf_path_example)
qed

text \<open>
  Claim C6 as it is stated fails. A transfer that breaks after the first chunk leaves
  that chunk at the destination; a second run over the same record, in which the
  transfer would succeed, makes no request and changes nothing: the partial file counts
  as already downloaded.
\<close>

theorem partial_file_counterexample:
  "files (snd (download_pdfs_for_records (stub_env breaks_partway)
                 [rec_of ''2401.00001'' ''http://arxiv.org/pdf/2401.00001''] ''pdfs'' (world0 [])))
         ''pdfs/2401.00001.pdf'' = Some ''%PDF-1.''
   \<and> download_pdfs_for_records (stub_env succeeds)
         [rec_of ''2401.00001'' ''http://arxiv.org/pdf/2401.00001''] ''pdfs''
         (snd (download_pdfs_for_records (stub_env breaks_partway)
                 [rec_of ''2401.00001'' ''http://arxiv.org/pdf/2401.00001''] ''pdfs'' (world0 [])))
       = (Inr (),
          snd (download_pdfs_for_records (stub_env breaks_partway)
                 [rec_of ''2401.00001'' ''http://arxiv.org/pdf/2401.00001''] ''pdfs'' (world0 [])))"
proof -
  have first: "download_pdfs_for_records (stub_env breaks_partway)
                 [rec_of ''2401.00001'' ''http://arxiv.org/pdf/2401.00001''] ''pdfs'' (world0 [])
     = (Inr (),
        \<lparr> net = [], files = [''pdfs/2401.00001.pdf'' \<mapsto> ''%PDF-1.''], dirs = {''pdfs''},
          trace = [Get ''http://arxiv.org/pdf/2401.00001'' ''pdfs/2401.00001.pdf'',
                   Print_failed ''2401.00001'' (RequestError ''connection broken'')] \<rparr>)"
    unfolding download_pdfs_for_records_def makedirs_pdfs
    by (simp add: download_one_def rec_of_def truthy_def pdf_path_example path_exists_def
          world0_def download_pdf_def stub_env_def breaks_partway_def emit_def open_wb_def
          can_open_def suffix_to_prefix write_file_def Let_def)
  have second: "download_pdfs_for_records (stub_env succeeds)
         [rec_of ''2401.00001'' ''http://arxiv.org/pdf/2401.00001''] ''pdfs''
         \<lparr> net = [], files = [''pdfs/2401.00001.pdf'' \<mapsto> ''%PDF-1.''], dirs = {''pdfs''},
           trace = [Get ''http://arxiv.org/pdf/2401.00001'' ''pdfs/2401.00001.pdf'',
                    Print_failed ''2401.00001'' (RequestError ''connection broken'')] \<rparr>
     = (Inr (),
        \<lparr> net = [], files = [''pdfs/2401.00001.pdf'' \<mapsto> ''%PDF-1.''], dirs = {''pdfs''},
          trace = [Get ''http://arxiv.org/pdf/2401.00001'' ''pdfs/2401.00001.pdf'',
                   Print_failed ''2401.00001'' (RequestError ''connection broken'')] \<rparr>)"
    by (simp add: download_pdfs_for_records_def makedirs_def parent_dirs_pdfs download_one_def
          rec_of_def truthy_def pdf_path_example path_exists_def)
  show ?thesis
    unfolding first using second by simp
qed

end
